theory Spec2Isabelle
  imports Main "HOL-Library.Sublist" "HOL-Library.AList"
begin

section \<open>Strings, paths and the outside world\<close>

text \<open>
  Python strings are modelled as \<open>string\<close> (lists of 8-bit characters); the digests,
  URLs and paths handled by \<^verbatim>\<open>dogen/tools.py\<close> are ASCII text.
\<close>

text \<open>
  \<^verbatim>\<open>str.lower()\<close> on ASCII text: the letters \<open>A\<close>..\<open>Z\<close> (codes 65..90) are mapped to
  \<open>a\<close>..\<open>z\<close>, every other character is kept.
\<close>

definition lower_char :: "char \<Rightarrow> char" where
  "lower_char c =
     (let n = (of_char c :: nat)
      in if 65 \<le> n \<and> n \<le> 90 then char_of (n + 32) else c)"

definition lower :: "string \<Rightarrow> string" where
  "lower s = map lower_char s"

text \<open>
  \<^verbatim>\<open>s.replace(old, new)\<close>: every non-overlapping occurrence of \<open>old\<close>, found from left
  to right, is replaced by \<open>new\<close>. With an empty \<open>old\<close> Python inserts \<open>new\<close> before every
  character and at the end.
\<close>

function py_replace :: "string \<Rightarrow> string \<Rightarrow> string \<Rightarrow> string" where
  "py_replace old new s =
     (if old = [] then new @ concat (map (\<lambda>c. c # new) s)
      else if s = [] then []
      else if prefix old s then new @ py_replace old new (drop (length old) s)
      else hd s # py_replace old new (tl s))"
  by pat_completeness auto
termination
  by (relation "measure (\<lambda>(old, new, s). length s)") auto

declare py_replace.simps [simp del]

text \<open>
  \<^verbatim>\<open>os.path.join\<close> of \<^verbatim>\<open>posixpath\<close>: an absolute component discards what precedes
  it; otherwise components are joined by exactly one \<open>/\<close>.
\<close>

definition join2 :: "string \<Rightarrow> string \<Rightarrow> string" where
  "join2 path b =
     (if b \<noteq> [] \<and> hd b = CHR ''/'' then b
      else if path = [] \<or> last path = CHR ''/'' then path @ b
      else path @ ''/'' @ b)"

definition path_join :: "string \<Rightarrow> string list \<Rightarrow> string" where
  "path_join a ps = foldl join2 a ps"

text \<open>
  The file system maps a path to the node found there. Paths are compared as written
  (no symbolic links, no \<open>..\<close> normalisation).
\<close>

datatype node = File string | Dir

type_synonym filesystem = "string \<Rightarrow> node option"

definition path_exists :: "filesystem \<Rightarrow> string \<Rightarrow> bool" where
  "path_exists fsys p = (fsys p \<noteq> None)"

text \<open>The exceptions that can leave the functions of \<^verbatim>\<open>dogen/tools.py\<close>.\<close>

datatype exn =
    DogenError string
  | DogenErrorCause string exn
  | AttributeError string
  | KeyError string
  | IOError string
  | LibraryError string

fun is_DogenError :: "exn \<Rightarrow> bool" where
  "is_DogenError (DogenError m) = True"
| "is_DogenError (DogenErrorCause m e) = True"
| "is_DogenError e = False"

text \<open>\<^verbatim>\<open>open(path, 'rb')\<close> followed by reading everything.\<close>

definition read_file :: "filesystem \<Rightarrow> string \<Rightarrow> exn + string" where
  "read_file fsys p =
     (case fsys p of
        Some (File data) \<Rightarrow> Inr data
      | Some Dir \<Rightarrow> Inl (IOError p)
      | None \<Rightarrow> Inl (IOError p))"

text \<open>
  Observable effects are recorded in a trace: every HTTP request, every file written and
  every file opened for hashing.
\<close>

datatype event =
    NetGet string bool
  | FileWrite string
  | HashFile string string

record world =
  fs :: filesystem
  net :: "string \<Rightarrow> int \<times> string list"
  trace :: "event list"

section \<open>Artifacts\<close>

definition SUPPORTED_HASH_ALGORITHMS :: "string list" where
  "SUPPORTED_HASH_ALGORITHMS = [''sha256'', ''sha1'', ''md5'']"

text \<open>The class attributes of \<^verbatim>\<open>Artifact\<close>, shared by all instances and read at call time.\<close>

record artifact_class =
  ssl_verify :: bool
  check_integrity :: bool
  target_dir :: string

definition default_class :: artifact_class where
  "default_class = \<lparr>ssl_verify = True, check_integrity = True, target_dir = ''''\<rparr>"

text \<open>
  An instance. \<open>sums\<close> is the dictionary \<^verbatim>\<open>self.sums\<close> in insertion order, with
  digests that are strings; \<open>url\<close> is \<open>None\<close> as long as the attribute \<^verbatim>\<open>self.url\<close>
  has not been assigned.
\<close>

record artifact =
  artifact :: string
  name :: string
  sums :: "(string \<times> string) list"
  filename :: string
  url :: "string option"

text \<open>The loop of \<^verbatim>\<open>__init__\<close> that copies the supported checksums.\<close>

fun collect_sums :: "(string \<rightharpoonup> string) \<Rightarrow> string list \<Rightarrow>
    (string \<times> string) list \<Rightarrow> (string \<times> string) list" where
  "collect_sums d [] acc = acc"
| "collect_sums d (alg # algs) acc =
     (case d alg of
        Some v \<Rightarrow> collect_sums d algs (AList.update alg v acc)
      | None \<Rightarrow> collect_sums d algs acc)"

definition Artifact_init :: "artifact_class \<Rightarrow> (string \<rightharpoonup> string) \<Rightarrow> exn + artifact" where
  "Artifact_init cls artifact_dict =
     (case artifact_dict ''artifact'' of
        None \<Rightarrow> Inl (KeyError ''artifact'')
      | Some src \<Rightarrow>
          (case artifact_dict ''name'' of
             None \<Rightarrow> Inl (KeyError ''name'')
           | Some nm \<Rightarrow>
               Inr \<lparr>artifact = src, name = nm,
                    sums = collect_sums artifact_dict SUPPORTED_HASH_ALGORITHMS [],
                    filename = path_join (target_dir cls) [nm],
                    url = None\<rparr>))"

text \<open>
  \<^verbatim>\<open>os.getenv("DOGEN_ARTIFACT_CACHE", "")\<close> on an environment given as a map.
\<close>

definition getenv :: "(string \<rightharpoonup> string) \<Rightarrow> string \<Rightarrow> string \<Rightarrow> string" where
  "getenv env k dflt = (case env k of Some v \<Rightarrow> v | None \<Rightarrow> dflt)"

text \<open>
  The loop of \<^verbatim>\<open>_generate_url\<close>: the first algorithm of the list that is a key of
  \<^verbatim>\<open>self.sums\<close> assigns the URL and breaks; when none is, nothing is assigned.
\<close>

fun cache_url :: "string \<Rightarrow> artifact \<Rightarrow> string list \<Rightarrow> artifact" where
  "cache_url cache a [] = a"
| "cache_url cache a (alg # algs) =
     (case map_of (sums a) alg of
        Some h \<Rightarrow>
          a\<lparr>url := Some (py_replace ''#hash#'' h
                          (py_replace ''#algorithm#'' alg
                            (py_replace ''#filename#'' (name a) cache)))\<rparr>
      | None \<Rightarrow> cache_url cache a algs)"

definition generate_url :: "(string \<rightharpoonup> string) \<Rightarrow> artifact \<Rightarrow> artifact" where
  "generate_url env a =
     (let cache = getenv env ''DOGEN_ARTIFACT_CACHE'' ''''
      in if cache = [] then a\<lparr>url := Some (artifact a)\<rparr>
         else cache_url cache a SUPPORTED_HASH_ALGORITHMS)"

text \<open>
  \<^verbatim>\<open>hashlib\<close> is a parameter of the model: \<open>hashlib alg\<close> is \<open>None\<close> when the module has
  no attribute \<open>alg\<close>, and otherwise the function from the bytes fed to the hash object to
  its \<^verbatim>\<open>hexdigest()\<close>. Feeding a file in chunks of 65536 bytes gives the digest of the
  whole content.
\<close>

type_synonym hashlib = "string \<Rightarrow> (string \<Rightarrow> string) option"

definition mismatch_message :: "string \<Rightarrow> string \<Rightarrow> string \<Rightarrow> string \<Rightarrow> string" where
  "mismatch_message algorithm nm chksum expected_chksum =
     ''The '' @ algorithm @ '' computed for the '' @ [CHR 0x27] @ nm @ [CHR 0x27] @
     '' file ('' @ [CHR 0x27] @ chksum @ [CHR 0x27] @ '') doesn'' @ [CHR 0x27] @
     ''t match the '' @ [CHR 0x27] @ expected_chksum @ [CHR 0x27] @ '' value''"

definition check_sum :: "hashlib \<Rightarrow> artifact \<Rightarrow> string \<Rightarrow> string \<Rightarrow> world \<Rightarrow>
    (exn + unit) \<times> world" where
  "check_sum hl a algorithm expected_chksum w =
     (case hl algorithm of
        None \<Rightarrow> (Inl (AttributeError algorithm), w)
      | Some hash_function \<Rightarrow>
          (case read_file (fs w) (filename a) of
             Inl e \<Rightarrow> (Inl e, w)
           | Inr content \<Rightarrow>
               (let chksum = hash_function content;
                    w' = w\<lparr>trace := trace w @ [HashFile algorithm (filename a)]\<rparr>
                in if lower chksum \<noteq> lower expected_chksum
                   then (Inl (DogenError
                           (mismatch_message algorithm (name a) chksum expected_chksum)), w')
                   else (Inr (), w'))))"

text \<open>The loop of \<^verbatim>\<open>verify\<close> over \<^verbatim>\<open>self.sums.items()\<close>; an exception ends it.\<close>

fun check_sums :: "hashlib \<Rightarrow> artifact \<Rightarrow> (string \<times> string) list \<Rightarrow> world \<Rightarrow>
    (exn + unit) \<times> world" where
  "check_sums hl a [] w = (Inr (), w)"
| "check_sums hl a ((algorithm, chksum) # rest) w =
     (case check_sum hl a algorithm chksum w of
        (Inl e, w') \<Rightarrow> (Inl e, w')
      | (Inr u, w') \<Rightarrow> check_sums hl a rest w')"

definition verify :: "hashlib \<Rightarrow> artifact_class \<Rightarrow> artifact \<Rightarrow> world \<Rightarrow>
    (exn + bool) \<times> world" where
  "verify hl cls a w =
     (if \<not> check_integrity cls then (Inr True, w)
      else (case check_sums hl a (sums a) w of
              (Inl e, w') \<Rightarrow> (Inl e, w')
            | (Inr u, w') \<Rightarrow> (Inr True, w')))"

text \<open>
  The criterion of the specification for one declared checksum: the digest computed over
  the file equals the expected digest when both are compared in lower case. It is stated
  independently of \<open>check_sum\<close>, to be compared with it.
\<close>

definition digest_matches :: "hashlib \<Rightarrow> filesystem \<Rightarrow> artifact \<Rightarrow> string \<times> string \<Rightarrow> bool" where
  "digest_matches hl fsys a p =
     (case hl (fst p) of
        None \<Rightarrow> False
      | Some hash_function \<Rightarrow>
          (case fsys (filename a) of
             Some (File content) \<Rightarrow> lower (hash_function content) = lower (snd p)
           | Some Dir \<Rightarrow> False
           | None \<Rightarrow> False))"

text \<open>
  \<^verbatim>\<open>os.path.dirname\<close> of \<^verbatim>\<open>posixpath\<close>: the part up to the last separator, without
  its trailing separators unless it consists of separators only.
\<close>

definition dirname :: "string \<Rightarrow> string" where
  "dirname p =
     (let head = rev (dropWhile (\<lambda>c. c \<noteq> CHR ''/'') (rev p))
      in if filter (\<lambda>c. c \<noteq> CHR ''/'') head = [] then head
         else rev (dropWhile (\<lambda>c. c = CHR ''/'') (rev head)))"

text \<open>
  \<^verbatim>\<open>open(path, 'wb')\<close> followed by the writes: the file is created or replaced. The call
  raises when the path is a directory and when the directory that is to hold the file is
  missing or is not a directory. An empty directory name stands for the current
  directory, which exists, as does the root.
\<close>

definition write_file :: "filesystem \<Rightarrow> string \<Rightarrow> string \<Rightarrow> exn + filesystem" where
  "write_file fsys p content =
     (let parent = dirname p
      in if fsys p = Some Dir then Inl (IOError p)
         else if filter (\<lambda>c. c \<noteq> CHR ''/'') parent = [] \<or> fsys parent = Some Dir
         then Inr (fsys(p \<mapsto> File content))
         else Inl (IOError p))"

text \<open>
  \<^verbatim>\<open>fetch\<close>. The response of \<^verbatim>\<open>requests.get\<close> is its status code and the chunks that
  \<^verbatim>\<open>iter_content\<close> yields; the chunks are written one after the other. Reading the
  unassigned attribute \<^verbatim>\<open>self.url\<close> (first done when the debug message is formatted)
  raises \<^verbatim>\<open>AttributeError\<close>. Nothing in \<^verbatim>\<open>fetch\<close> creates the target directory, so
  opening the destination raises when that directory is missing. A request always yields
  a response here: failures of the transport are outside the model.
\<close>

definition fetch :: "artifact_class \<Rightarrow> (string \<rightharpoonup> string) \<Rightarrow> artifact \<Rightarrow> world \<Rightarrow>
    (exn + artifact) \<times> world" where
  "fetch cls env a0 w =
     (let a = generate_url env a0;
          destination = path_join (target_dir cls) [name a]
      in if path_exists (fs w) destination then (Inr a, w)
         else (case url a of
                 None \<Rightarrow> (Inl (AttributeError ''url''), w)
               | Some u \<Rightarrow>
                   (let res = net w u;
                        w1 = w\<lparr>trace := trace w @ [NetGet u (ssl_verify cls)]\<rparr>
                    in if fst res \<noteq> 200
                       then (Inl (DogenError (''Could not download file from '' @ u)), w1)
                       else (case write_file (fs w1) destination (concat (snd res)) of
                               Inl e \<Rightarrow> (Inl e, w1)
                             | Inr fsys' \<Rightarrow>
                                 (Inr a,
                                  w1\<lparr>fs := fsys',
                                     trace := trace w1 @ [FileWrite destination]\<rparr>)))))"

section \<open>Cleaning the target directory\<close>

text \<open>
  A path lies in the tree rooted at \<open>d\<close> when it is \<open>d\<close> itself or continues \<open>d\<close> after
  a separator.
\<close>

definition in_tree :: "string \<Rightarrow> string \<Rightarrow> bool" where
  "in_tree d p = (p = d \<or> prefix (d @ ''/'') p)"

text \<open>
  \<^verbatim>\<open>shutil.rmtree(d)\<close> deletes the directory \<open>d\<close> with everything below it, and raises
  when \<open>d\<close> is missing or is not a directory.
\<close>

definition rmtree :: "filesystem \<Rightarrow> string \<Rightarrow> exn + filesystem" where
  "rmtree fsys d =
     (case fsys d of
        Some Dir \<Rightarrow> Inr (\<lambda>p. if in_tree d p then None else fsys p)
      | Some (File data) \<Rightarrow> Inl (IOError d)
      | None \<Rightarrow> Inl (IOError d))"

fun clean_dirs :: "filesystem \<Rightarrow> string list \<Rightarrow> (exn + unit) \<times> filesystem" where
  "clean_dirs fsys [] = (Inr (), fsys)"
| "clean_dirs fsys (d # ds) =
     (if path_exists fsys d
      then (case rmtree fsys d of
              Inl e \<Rightarrow> (Inl e, fsys)
            | Inr fsys' \<Rightarrow> clean_dirs fsys' ds)
      else clean_dirs fsys ds)"

definition dirs_to_clean :: "string \<Rightarrow> string list" where
  "dirs_to_clean target =
     [path_join target [''image'', ''modules''],
      path_join target [''image'', ''repos''],
      path_join target [''repo'']]"

definition cleanup :: "string \<Rightarrow> filesystem \<Rightarrow> (exn + unit) \<times> filesystem" where
  "cleanup target fsys = clean_dirs fsys (dirs_to_clean target)"

section \<open>Loading a descriptor\<close>

text \<open>
  The libraries are parameters of the model: \<open>yaml_safe_load\<close> parses a text into a
  document or raises, \<open>core_new\<close> is the constructor
  \<^verbatim>\<open>Core(source_data=..., schema_data=...)\<close>, and \<open>core_validate\<close> is
  \<^verbatim>\<open>core.validate(raise_exception=True)\<close>. \<open>pkg_dir\<close> is the directory of the module,
  \<^verbatim>\<open>os.path.dirname(__file__)\<close>. Only the call of \<^verbatim>\<open>validate\<close> is inside the
  \<^verbatim>\<open>try\<close> block.
\<close>

definition schema_path_of :: "string \<Rightarrow> string \<Rightarrow> string" where
  "schema_path_of pkg_dir schema_type =
     path_join pkg_dir [''schema'', schema_type @ ''_schema.yaml'']"

definition load_descriptor ::
  "(string \<Rightarrow> exn + 'y) \<Rightarrow> ('y \<Rightarrow> 'y \<Rightarrow> exn + 'c) \<Rightarrow> ('c \<Rightarrow> exn + 'y) \<Rightarrow>
   string \<Rightarrow> filesystem \<Rightarrow> string \<Rightarrow> string \<Rightarrow> exn + 'y" where
  "load_descriptor yaml_safe_load core_new core_validate pkg_dir fsys descriptor_path schema_type =
     (let schema_path = schema_path_of pkg_dir schema_type
      in if \<not> path_exists fsys schema_path
         then Inl (DogenError (''Cannot locate schema for '' @ schema_type @ ''.''))
         else
          (case read_file fsys schema_path of
             Inl e \<Rightarrow> Inl e
           | Inr schema_text \<Rightarrow>
          (case yaml_safe_load schema_text of
             Inl e \<Rightarrow> Inl e
           | Inr schema \<Rightarrow>
          if \<not> path_exists fsys descriptor_path
          then Inl (DogenError ''Cannot find provided descriptor file'')
          else
          (case read_file fsys descriptor_path of
             Inl e \<Rightarrow> Inl e
           | Inr descriptor_text \<Rightarrow>
          (case yaml_safe_load descriptor_text of
             Inl e \<Rightarrow> Inl e
           | Inr descriptor \<Rightarrow>
          (case core_new descriptor schema of
             Inl e \<Rightarrow> Inl e
           | Inr core \<Rightarrow>
          (case core_validate core of
             Inr validated \<Rightarrow> Inr validated
           | Inl ex \<Rightarrow> Inl (DogenErrorCause ''Cannot validate schema'' ex))))))))"

section \<open>Placeholder substitution\<close>

text \<open>
  Modelled from the spec: the substitution engine (\<^verbatim>\<open>resolve(stringValue, overrides)\<close> of
  section 4.4) lives in \<^verbatim>\<open>dogen/generator.py\<close>, which is not among the sources; only
  its tests are. The grammar has two placeholder forms, \<^verbatim>\<open>{{NAME}}\<close> and
  \<^verbatim>\<open>{{NAME:default-literal}}\<close>; the name ends at the first colon, so that the default of
  \<^verbatim>\<open>{{FROM:rhel:7}}\<close> is \<^verbatim>\<open>rhel:7\<close> as the tests expect. Precedence: override parameter,
  then inline default, otherwise resolution fails. Text outside placeholders is copied;
  an opening \<^verbatim>\<open>{{\<close> that is never closed is copied as text.
\<close>

datatype subst_error = SubstitutionError string

definition parse_placeholder :: "string \<Rightarrow> string \<times> string option" where
  "parse_placeholder body =
     (let nm = takeWhile (\<lambda>c. c \<noteq> CHR '':'') body;
          r = dropWhile (\<lambda>c. c \<noteq> CHR '':'') body
      in (nm, if r = [] then None else Some (tl r)))"

definition resolve_placeholder ::
  "(string \<rightharpoonup> string) \<Rightarrow> string \<times> string option \<Rightarrow> subst_error + string" where
  "resolve_placeholder overrides ph =
     (case overrides (fst ph) of
        Some v \<Rightarrow> Inr v
      | None \<Rightarrow>
          (case snd ph of
             Some d \<Rightarrow> Inr d
           | None \<Rightarrow> Inl (SubstitutionError (fst ph))))"

definition prepend :: "string \<Rightarrow> subst_error + string \<Rightarrow> subst_error + string" where
  "prepend v r = (case r of Inl e \<Rightarrow> Inl e | Inr t \<Rightarrow> Inr (v @ t))"

text \<open>
  The scanner: \<open>None\<close> while reading text, \<open>Some body\<close> while inside a placeholder whose
  characters read so far are \<open>body\<close>.
\<close>

fun scan :: "(string \<rightharpoonup> string) \<Rightarrow> string option \<Rightarrow> string \<Rightarrow> subst_error + string" where
  "scan ov None [] = Inr []"
| "scan ov None [c] = Inr [c]"
| "scan ov None (c # d # cs) =
     (if c = CHR ''{'' \<and> d = CHR ''{'' then scan ov (Some []) cs
      else prepend [c] (scan ov None (d # cs)))"
| "scan ov (Some body) [] = Inr (''{{'' @ body)"
| "scan ov (Some body) [c] = Inr (''{{'' @ body @ [c])"
| "scan ov (Some body) (c # d # cs) =
     (if c = CHR ''}'' \<and> d = CHR ''}''
      then (case resolve_placeholder ov (parse_placeholder body) of
              Inl e \<Rightarrow> Inl e
            | Inr v \<Rightarrow> prepend v (scan ov None cs))
      else scan ov (Some (body @ [c])) (d # cs))"

definition resolve :: "string \<Rightarrow> (string \<rightharpoonup> string) \<Rightarrow> subst_error + string" where
  "resolve string_value overrides = scan overrides None string_value"

definition placeholder :: "string \<Rightarrow> string option \<Rightarrow> string" where
  "placeholder nm dflt =
     ''{{'' @ nm @ (case dflt of None \<Rightarrow> [] | Some d \<Rightarrow> '':'' @ d) @ ''}}''"

section \<open>Example inputs\<close>

text \<open>
  Concrete inputs at which the model is evaluated, and small stand-ins for the libraries.
  The digest of \<open>stub_hashlib\<close> is the content itself. \<open>stub_yaml\<close> yields Python's
  \<^verbatim>\<open>None\<close> for an empty document, as \<^verbatim>\<open>yaml.safe_load\<close> does, and the text itself
  otherwise. The constructor \<open>stub_core_new\<close> raises when the source or the schema is
  \<^verbatim>\<open>None\<close>, as the constructor of the validator does, and \<open>stub_validate\<close> accepts a
  descriptor only when it equals the schema.
\<close>

definition stub_hashlib :: hashlib where
  "stub_hashlib alg =
     (if alg \<in> set SUPPORTED_HASH_ALGORITHMS then Some (\<lambda>content. content) else None)"

definition example_class :: artifact_class where
  "example_class = \<lparr>ssl_verify = True, check_integrity = True, target_dir = ''target''\<rparr>"

definition unchecked_class :: artifact_class where
  "unchecked_class = \<lparr>ssl_verify = True, check_integrity = False, target_dir = ''target''\<rparr>"

definition example_dict :: "string \<rightharpoonup> string" where
  "example_dict =
     [''artifact'' \<mapsto> ''http://host/a.jar'', ''name'' \<mapsto> ''a.jar'',
      ''sha1'' \<mapsto> ''AB'', ''md5'' \<mapsto> ''cd'', ''sha512'' \<mapsto> ''ee'']"

definition example_artifact :: artifact where
  "example_artifact =
     \<lparr>artifact = ''http://host/a.jar'', name = ''a.jar'',
      sums = [(''sha1'', ''AB''), (''md5'', ''cd'')],
      filename = ''target/a.jar'', url = None\<rparr>"

definition matching_artifact :: artifact where
  "matching_artifact =
     \<lparr>artifact = ''http://host/a.jar'', name = ''a.jar'',
      sums = [(''sha1'', ''AB''), (''md5'', ''ab'')],
      filename = ''target/a.jar'', url = None\<rparr>"

definition plain_dict :: "string \<rightharpoonup> string" where
  "plain_dict = [''artifact'' \<mapsto> ''http://host/b.jar'', ''name'' \<mapsto> ''b.jar'']"

definition plain_artifact :: artifact where
  "plain_artifact =
     \<lparr>artifact = ''http://host/b.jar'', name = ''b.jar'', sums = [],
      filename = ''target/b.jar'', url = None\<rparr>"

definition cache_env :: "string \<rightharpoonup> string" where
  "cache_env = [''DOGEN_ARTIFACT_CACHE'' \<mapsto> ''http://c/#algorithm#/#hash#/#filename#'']"

definition example_net :: "string \<Rightarrow> int \<times> string list" where
  "example_net u = (if u = ''http://host/a.jar'' then (200, [''a'', ''b'']) else (404, []))"

definition empty_world :: world where
  "empty_world = \<lparr>fs = Map.empty, net = example_net, trace = []\<rparr>"

definition target_world :: world where
  "target_world = \<lparr>fs = [''target'' \<mapsto> Dir], net = example_net, trace = []\<rparr>"

definition downloaded_world :: world where
  "downloaded_world =
     \<lparr>fs = [''target'' \<mapsto> Dir, ''target/a.jar'' \<mapsto> File ''ab''], net = example_net,
      trace = []\<rparr>"

definition fetched_world :: world where
  "fetched_world =
     \<lparr>fs = [''target/a.jar'' \<mapsto> File ''ab''], net = example_net, trace = []\<rparr>"

definition stub_yaml :: "string \<Rightarrow> exn + string option" where
  "stub_yaml text = (if text = [] then Inr None else Inr (Some text))"

definition stub_core_new :: "string option \<Rightarrow> string option \<Rightarrow> exn + string \<times> string" where
  "stub_core_new source_data schema_data =
     (case source_data of
        None \<Rightarrow> Inl (LibraryError ''CoreError'')
      | Some src \<Rightarrow>
          (case schema_data of
             None \<Rightarrow> Inl (LibraryError ''CoreError'')
           | Some sch \<Rightarrow> Inr (src, sch)))"

definition stub_validate :: "string \<times> string \<Rightarrow> exn + string option" where
  "stub_validate core =
     (if fst core = snd core then Inr (Some (fst core))
      else Inl (LibraryError ''SchemaError''))"

definition empty_descriptor :: filesystem where
  "empty_descriptor =
     [''pkg/schema/image_schema.yaml'' \<mapsto> File ''name: str'',
      ''image.yaml'' \<mapsto> File []]"

definition example_tree :: filesystem where
  "example_tree =
     [''out'' \<mapsto> Dir, ''out/Dockerfile'' \<mapsto> File ''FROM scratch'',
      ''out/image'' \<mapsto> Dir, ''out/image/modules'' \<mapsto> Dir,
      ''out/image/modules/m.yaml'' \<mapsto> File ''m'', ''out/image/modulesX'' \<mapsto> File ''x'',
      ''out/repo'' \<mapsto> Dir, ''out/repo/r'' \<mapsto> File ''r'']"

section \<open>Auxiliary facts\<close>

subsection \<open>Construction and URL generation\<close>

lemma map_of_collect_sums:
  "map_of (collect_sums d algs acc) k =
     (if k \<in> set algs then (case d k of Some v \<Rightarrow> Some v | None \<Rightarrow> map_of acc k)
      else map_of acc k)"
  by (induction algs arbitrary: acc) (auto simp: update_conv split: option.splits)

lemma collect_sums_cong:
  "(\<And>alg. alg \<in> set algs \<Longrightarrow> d alg = d' alg) \<Longrightarrow>
   collect_sums d algs acc = collect_sums d' algs acc"
  by (induction algs arbitrary: acc) (auto split: option.splits)

lemma init_ignores_key:
  assumes "k \<notin> set SUPPORTED_HASH_ALGORITHMS" "k \<noteq> ''artifact''" "k \<noteq> ''name''"
  shows "Artifact_init cls (d(k \<mapsto> v)) = Artifact_init cls d"
proof -
  have c: "collect_sums (d(k \<mapsto> v)) SUPPORTED_HASH_ALGORITHMS [] =
        collect_sums d SUPPORTED_HASH_ALGORITHMS []"
    using assms(1) by (intro collect_sums_cong) auto
  from assms(2,3) have e: "(d(k \<mapsto> v)) ''artifact'' = d ''artifact''"
    "(d(k \<mapsto> v)) ''name'' = d ''name''" by auto
  show ?thesis unfolding Artifact_init_def by (simp only: c e)
qed

lemma name_cache_url: "name (cache_url cache a algs) = name a"
  by (induction algs) (auto split: option.splits)

lemma name_generate_url: "name (generate_url env a) = name a"
  by (simp add: generate_url_def Let_def name_cache_url)

lemma cache_url_first:
  assumes "alg \<in> set algs" "map_of (sums a) alg = Some h"
    "\<forall>alg' \<in> set (takeWhile (\<lambda>x. x \<noteq> alg) algs). map_of (sums a) alg' = None"
  shows "cache_url cache a algs =
     a\<lparr>url := Some (py_replace ''#hash#'' h
                          (py_replace ''#algorithm#'' alg
                            (py_replace ''#filename#'' (name a) cache)))\<rparr>"
  using assms
proof (induction algs)
  case Nil
  then show ?case by simp
next
  case (Cons x xs)
  show ?case
  proof (cases "x = alg")
    case True
    with Cons.prems show ?thesis by simp
  next
    case False
    with Cons.prems have "map_of (sums a) x = None" by simp
    moreover from False Cons.prems have "alg \<in> set xs"
      "\<forall>alg' \<in> set (takeWhile (\<lambda>x. x \<noteq> alg) xs). map_of (sums a) alg' = None" by auto
    ultimately show ?thesis using Cons.IH Cons.prems(2) by simp
  qed
qed

lemma cache_url_none:
  "\<forall>alg \<in> set algs. map_of (sums a) alg = None \<Longrightarrow> cache_url cache a algs = a"
  by (induction algs) auto

subsection \<open>Checksum verification\<close>

lemma check_sum_trace:
  "\<exists>evs. trace (snd (check_sum hl a alg c w)) = trace w @ evs \<and>
      set evs \<subseteq> {HashFile alg (filename a)}"
  by (auto simp: check_sum_def Let_def split: option.splits sum.splits)

lemma check_sums_trace:
  "\<exists>evs. trace (snd (check_sums hl a ss w)) = trace w @ evs \<and>
      set evs \<subseteq> (\<lambda>alg. HashFile alg (filename a)) ` fst ` set ss"
proof (induction ss arbitrary: w)
  case Nil
  then show ?case by simp
next
  case (Cons p ss)
  obtain alg c where p: "p = (alg, c)" by (cases p)
  obtain r w1 where r: "check_sum hl a alg c w = (r, w1)" by (cases "check_sum hl a alg c w")
  from check_sum_trace[of hl a alg c w] r obtain e1 where
    e1: "trace w1 = trace w @ e1" "set e1 \<subseteq> {HashFile alg (filename a)}" by auto
  show ?case
  proof (cases r)
    case (Inl e)
    with p r e1 show ?thesis by auto
  next
    case (Inr u)
    from Cons.IH[of w1] obtain e2 where
      e2: "trace (snd (check_sums hl a ss w1)) = trace w1 @ e2"
          "set e2 \<subseteq> (\<lambda>alg. HashFile alg (filename a)) ` fst ` set ss" by auto
    with p r e1 Inr show ?thesis by (auto intro!: exI[of _ "e1 @ e2"])
  qed
qed

lemma verify_trace:
  "\<exists>evs. trace (snd (verify hl cls a w)) = trace w @ evs \<and>
      set evs \<subseteq> (\<lambda>alg. HashFile alg (filename a)) ` fst ` set (sums a)"
  using check_sums_trace[of hl a "sums a" w]
  by (auto simp: verify_def split: prod.splits sum.splits)

lemma check_sum_fs: "fs (snd (check_sum hl a alg c w)) = fs w"
  by (simp add: check_sum_def Let_def split: option.splits sum.splits)

lemma check_sum_ok_iff:
  "(fst (check_sum hl a alg c w) = Inr ()) = digest_matches hl (fs w) a (alg, c)"
  by (auto simp: check_sum_def digest_matches_def read_file_def Let_def
           split: option.splits sum.splits node.splits)

lemma check_sum_ok_trace:
  "fst (check_sum hl a alg c w) = Inr () \<Longrightarrow>
   trace (snd (check_sum hl a alg c w)) = trace w @ [HashFile alg (filename a)]"
  by (auto simp: check_sum_def Let_def split: option.splits sum.splits if_splits)

lemma check_sums_fs: "fs (snd (check_sums hl a ss w)) = fs w"
proof (induction ss arbitrary: w)
  case Nil
  show ?case by simp
next
  case (Cons p ss)
  obtain alg c where p: "p = (alg, c)" by (cases p)
  obtain r w1 where r: "check_sum hl a alg c w = (r, w1)" by (cases "check_sum hl a alg c w")
  from check_sum_fs[of hl a alg c w] r have f: "fs w1 = fs w" by simp
  show ?case using p r f Cons.IH[of w1] by (cases r) simp_all
qed

lemma check_sums_ok_iff:
  "(fst (check_sums hl a ss w) = Inr ()) = (\<forall>p \<in> set ss. digest_matches hl (fs w) a p)"
proof (induction ss arbitrary: w)
  case Nil
  show ?case by simp
next
  case (Cons p ss)
  obtain alg c where p: "p = (alg, c)" by (cases p)
  obtain r w1 where r: "check_sum hl a alg c w = (r, w1)" by (cases "check_sum hl a alg c w")
  from check_sum_fs[of hl a alg c w] r have f: "fs w1 = fs w" by simp
  from check_sum_ok_iff[of hl a alg c w] r
  have m: "(r = Inr ()) = digest_matches hl (fs w) a (alg, c)" by simp
  show ?case
  proof (cases r)
    case (Inl e)
    with p r m show ?thesis by simp
  next
    case (Inr u)
    with p r m f Cons.IH[of w1] show ?thesis by simp
  qed
qed

lemma check_sums_ok_trace:
  "fst (check_sums hl a ss w) = Inr () \<Longrightarrow>
   trace (snd (check_sums hl a ss w)) =
     trace w @ map (\<lambda>p. HashFile (fst p) (filename a)) ss"
proof (induction ss arbitrary: w)
  case Nil
  show ?case by simp
next
  case (Cons p ss)
  obtain alg c where p: "p = (alg, c)" by (cases p)
  obtain r w1 where r: "check_sum hl a alg c w = (r, w1)" by (cases "check_sum hl a alg c w")
  show ?case
  proof (cases r)
    case (Inl e)
    with p r Cons.prems show ?thesis by simp
  next
    case (Inr u)
    with check_sum_ok_trace[of hl a alg c w] r
    have t: "trace w1 = trace w @ [HashFile alg (filename a)]" by simp
    from Inr p r Cons.prems have "fst (check_sums hl a ss w1) = Inr ()" by simp
    from Cons.IH[OF this] Inr p r t show ?thesis by simp
  qed
qed

lemma check_sum_error_kind:
  assumes "hl alg \<noteq> None" "read_file (fs w) (filename a) = Inr content"
    "fst (check_sum hl a alg c w) \<noteq> Inr ()"
  shows "\<exists>m. fst (check_sum hl a alg c w) = Inl (DogenError m)"
  using assms by (auto simp: check_sum_def Let_def split: option.splits sum.splits if_splits)

lemma check_sums_error_kind:
  assumes "\<forall>p \<in> set ss. hl (fst p) \<noteq> None" "read_file (fs w) (filename a) = Inr content"
    "fst (check_sums hl a ss w) \<noteq> Inr ()"
  shows "\<exists>m. fst (check_sums hl a ss w) = Inl (DogenError m)"
  using assms
proof (induction ss arbitrary: w)
  case Nil
  then show ?case by simp
next
  case (Cons p ss)
  obtain alg c where p: "p = (alg, c)" by (cases p)
  obtain r w1 where r: "check_sum hl a alg c w = (r, w1)" by (cases "check_sum hl a alg c w")
  from check_sum_fs[of hl a alg c w] r have f: "fs w1 = fs w" by simp
  show ?case
  proof (cases r)
    case (Inl e)
    from Cons.prems(1) p have "hl alg \<noteq> None" by simp
    with Cons.prems(2) r Inl
    have "\<exists>m. fst (check_sum hl a alg c w) = Inl (DogenError m)"
      by (intro check_sum_error_kind[where content = content]) simp_all
    with r Inl obtain m where "e = DogenError m" by auto
    with Inl p r show ?thesis by simp
  next
    case (Inr u)
    with p r Cons.prems(3) have "fst (check_sums hl a ss w1) \<noteq> Inr ()" by simp
    moreover from Cons.prems(1) have "\<forall>p \<in> set ss. hl (fst p) \<noteq> None" by simp
    moreover from Cons.prems(2) f have "read_file (fs w1) (filename a) = Inr content" by simp
    ultimately have "\<exists>m. fst (check_sums hl a ss w1) = Inl (DogenError m)"
      using Cons.IH[of w1] by blast
    with Inr p r show ?thesis by simp
  qed
qed

lemma verify_fst:
  "check_integrity cls \<Longrightarrow>
   fst (verify hl cls a w) =
     (case fst (check_sums hl a (sums a) w) of Inl e \<Rightarrow> Inl e | Inr u \<Rightarrow> Inr True)"
  by (simp add: verify_def split: prod.splits sum.splits)

lemma verify_snd:
  "check_integrity cls \<Longrightarrow> snd (verify hl cls a w) = snd (check_sums hl a (sums a) w)"
  by (simp add: verify_def split: prod.splits sum.splits)

subsection \<open>Removing directory trees\<close>

lemma rmtree_frame:
  "rmtree fsys d = Inr fsys' \<Longrightarrow> \<not> in_tree d p \<Longrightarrow> fsys' p = fsys p"
  by (auto simp: rmtree_def split: option.splits node.splits)

lemma clean_dirs_frame:
  "(\<And>d. d \<in> set ds \<Longrightarrow> \<not> in_tree d p) \<Longrightarrow> snd (clean_dirs fsys ds) p = fsys p"
proof (induction ds arbitrary: fsys)
  case Nil
  show ?case by simp
next
  case (Cons d ds)
  have rest: "snd (clean_dirs f ds) p = f p" for f
    using Cons.prems by (intro Cons.IH) simp
  show ?case
  proof (cases "path_exists fsys d")
    case False
    with rest[of fsys] show ?thesis by simp
  next
    case True
    show ?thesis
    proof (cases "rmtree fsys d")
      case (Inl e)
      with True show ?thesis by simp
    next
      case (Inr fsys')
      from rmtree_frame[OF Inr, of p] Cons.prems have "fsys' p = fsys p" by simp
      with True Inr rest[of fsys'] show ?thesis by simp
    qed
  qed
qed

lemma clean_dirs_removes:
  assumes "\<forall>d \<in> set ds. fsys d = None \<or> fsys d = Some Dir"
    and "distinct ds"
    and "\<forall>d \<in> set ds. \<forall>d' \<in> set ds. d \<noteq> d' \<longrightarrow> \<not> in_tree d d'"
  shows "clean_dirs fsys ds =
           (Inr (), \<lambda>p. if \<exists>d \<in> set ds. path_exists fsys d \<and> in_tree d p
                        then None else fsys p)"
  using assms
proof (induction ds arbitrary: fsys)
  case Nil
  show ?case by simp
next
  case (Cons d ds)
  show ?case
  proof (cases "path_exists fsys d")
    case False
    from Cons.prems have "clean_dirs fsys ds =
           (Inr (), \<lambda>p. if \<exists>d \<in> set ds. path_exists fsys d \<and> in_tree d p
                        then None else fsys p)"
      by (intro Cons.IH) auto
    with False show ?thesis by auto
  next
    case True
    with Cons.prems(1) have dir: "fsys d = Some Dir" by (auto simp: path_exists_def)
    define fsys' where "fsys' = (\<lambda>p. if in_tree d p then None else fsys p)"
    from dir have rm: "rmtree fsys d = Inr fsys'" by (simp add: rmtree_def fsys'_def)
    have same: "fsys' d' = fsys d'" if "d' \<in> set ds" for d'
    proof -
      from that Cons.prems(2) have "d \<noteq> d'" by auto
      with that Cons.prems(3) have "\<not> in_tree d d'" by auto
      then show ?thesis by (simp add: fsys'_def)
    qed
    have "clean_dirs fsys' ds =
           (Inr (), \<lambda>p. if \<exists>d \<in> set ds. path_exists fsys' d \<and> in_tree d p
                        then None else fsys' p)"
      using Cons.prems same by (intro Cons.IH) auto
    also have "(\<lambda>p. if \<exists>d \<in> set ds. path_exists fsys' d \<and> in_tree d p
                        then None else fsys' p) =
               (\<lambda>p. if \<exists>x \<in> set (d # ds). path_exists fsys x \<and> in_tree x p
                        then None else fsys p)"
      using True same by (auto simp: fun_eq_iff path_exists_def fsys'_def)
    finally show ?thesis using True rm by simp
  qed
qed

lemma dirs_to_clean_eq:
  "dirs_to_clean target =
     [join2 target [] @ ''image/modules'', join2 target [] @ ''image/repos'',
      join2 target [] @ ''repo'']"
  by (simp add: dirs_to_clean_def path_join_def join2_def)

lemma dirs_to_clean_separate:
  "distinct (dirs_to_clean target) \<and>
   (\<forall>d \<in> set (dirs_to_clean target). \<forall>d' \<in> set (dirs_to_clean target).
      d \<noteq> d' \<longrightarrow> \<not> in_tree d d')"
  by (simp add: dirs_to_clean_eq in_tree_def)

subsection \<open>Scanning placeholders\<close>

lemma scan_body:
  "CHR ''}'' \<notin> set xs \<Longrightarrow>
   scan ov (Some body) (xs @ ''}}'' @ rest) =
     (case resolve_placeholder ov (parse_placeholder (body @ xs)) of
        Inl e \<Rightarrow> Inl e
      | Inr v \<Rightarrow> prepend v (scan ov None rest))"
proof (induction xs arbitrary: body)
  case Nil
  show ?case by simp
next
  case (Cons x xs)
  then have x: "x \<noteq> CHR ''}''" and xs: "CHR ''}'' \<notin> set xs" by auto
  have "scan ov (Some body) ((x # xs) @ ''}}'' @ rest) =
        scan ov (Some (body @ [x])) (xs @ ''}}'' @ rest)"
    using x by (cases xs) simp_all
  also have "\<dots> = (case resolve_placeholder ov (parse_placeholder ((body @ [x]) @ xs)) of
        Inl e \<Rightarrow> Inl e
      | Inr v \<Rightarrow> prepend v (scan ov None rest))"
    by (rule Cons.IH[OF xs])
  finally show ?case by simp
qed

lemma parse_with_default:
  "CHR '':'' \<notin> set X \<Longrightarrow> parse_placeholder (X @ '':'' @ d) = (X, Some d)"
proof -
  assume n: "CHR '':'' \<notin> set X"
  then have a: "\<And>x. x \<in> set X \<Longrightarrow> x \<noteq> CHR '':''" by auto
  have "takeWhile (\<lambda>c. c \<noteq> CHR '':'') (X @ CHR '':'' # d) = X"
    using a by (simp add: takeWhile_append2)
  moreover have "dropWhile (\<lambda>c. c \<noteq> CHR '':'') (X @ CHR '':'' # d) = CHR '':'' # d"
    using a by (simp add: dropWhile_append2)
  ultimately show ?thesis by (simp add: parse_placeholder_def Let_def)
qed

lemma parse_without_default:
  "CHR '':'' \<notin> set X \<Longrightarrow> parse_placeholder X = (X, None)"
proof -
  assume "CHR '':'' \<notin> set X"
  then have "takeWhile (\<lambda>c. c \<noteq> CHR '':'') X = X" "dropWhile (\<lambda>c. c \<noteq> CHR '':'') X = []"
    by (auto simp: takeWhile_eq_all_conv)
  then show ?thesis by (simp add: parse_placeholder_def Let_def)
qed

lemma resolve_with_default:
  assumes "CHR '':'' \<notin> set X" "CHR ''}'' \<notin> set X" "CHR ''}'' \<notin> set d"
  shows "resolve (placeholder X (Some d)) ov = resolve_placeholder ov (X, Some d)"
proof -
  from assms have n: "CHR ''}'' \<notin> set (X @ '':'' @ d)" by simp
  have "resolve (placeholder X (Some d)) ov = scan ov (Some []) ((X @ '':'' @ d) @ ''}}'' @ [])"
    by (simp add: resolve_def placeholder_def)
  also have "\<dots> = (case resolve_placeholder ov (parse_placeholder ([] @ X @ '':'' @ d)) of
        Inl e \<Rightarrow> Inl e
      | Inr v \<Rightarrow> prepend v (scan ov None []))"
    by (rule scan_body[OF n])
  also have "\<dots> = resolve_placeholder ov (X, Some d)"
    using parse_with_default[OF assms(1), of d]
    by (simp add: prepend_def split: sum.splits)
  finally show ?thesis .
qed

lemma resolve_without_default:
  assumes "CHR '':'' \<notin> set X" "CHR ''}'' \<notin> set X"
  shows "resolve (placeholder X None) ov = resolve_placeholder ov (X, None)"
proof -
  have "resolve (placeholder X None) ov = scan ov (Some []) (X @ ''}}'' @ [])"
    by (simp add: resolve_def placeholder_def)
  also have "\<dots> = (case resolve_placeholder ov (parse_placeholder ([] @ X)) of
        Inl e \<Rightarrow> Inl e
      | Inr v \<Rightarrow> prepend v (scan ov None []))"
    by (rule scan_body[OF assms(2)])
  also have "\<dots> = resolve_placeholder ov (X, None)"
    using parse_without_default[OF assms(1)]
    by (simp add: prepend_def split: sum.splits)
  finally show ?thesis .
qed

subsection \<open>Unfolding the example inputs\<close>

lemmas ex_defs = example_class_def unchecked_class_def example_artifact_def
  matching_artifact_def plain_artifact_def plain_dict_def example_dict_def cache_env_def
  example_net_def empty_world_def fetched_world_def target_world_def downloaded_world_def
  stub_hashlib_def SUPPORTED_HASH_ALGORITHMS_def path_join_def join2_def path_exists_def

lemmas tree_defs = example_tree_def dirs_to_clean_def path_join_def join2_def in_tree_def
  path_exists_def

lemmas load_defs = load_descriptor_def schema_path_of_def path_join_def join2_def
  path_exists_def read_file_def stub_yaml_def stub_core_new_def stub_validate_def Let_def

lemma lower_examples: "lower ''ab'' = ''ab''" "lower ''AB'' = ''ab''" "lower ''cd'' = ''cd''"
  by code_simp+

section \<open>Fetching and verifying artifacts\<close>

text \<open>
  Claim C1, as amended. \<^verbatim>\<open>fetch\<close> performs no verification: when the destination is
  absent, its directory exists, a URL has been assigned and the server answers 200, it
  writes the received chunks and returns the artifact whatever checksums are declared,
  and its only effects are the request and the write. Verification is the separate
  method \<^verbatim>\<open>verify\<close>: with integrity checking enabled, a successful call has hashed the
  file exactly once per declared checksum, in order, and a single checksum that does not
  match makes the whole call fail.
\<close>

theorem fetch_downloads_without_verifying:
  "(\<not> path_exists (fs w) (path_join (target_dir cls) [name a]) \<and>
    fs w (dirname (path_join (target_dir cls) [name a])) = Some Dir \<and>
    url (generate_url env a) = Some u \<and> net w u = (200, chunks)
    \<longrightarrow> fetch cls env a w =
          (Inr (generate_url env a),
           w\<lparr>fs := (fs w)(path_join (target_dir cls) [name a] \<mapsto> File (concat chunks)),
             trace := trace w @ [NetGet u (ssl_verify cls),
                                 FileWrite (path_join (target_dir cls) [name a])]\<rparr>)) \<and>
   (check_integrity cls \<and> fst (verify hl cls a w) = Inr True
    \<longrightarrow> trace (snd (verify hl cls a w)) =
          trace w @ map (\<lambda>p. HashFile (fst p) (filename a)) (sums a)) \<and>
   (check_integrity cls \<and> (\<exists>p \<in> set (sums a). \<not> digest_matches hl (fs w) a p)
    \<longrightarrow> (\<exists>e. fst (verify hl cls a w) = Inl e))"
proof (intro conjI impI)
  assume h: "\<not> path_exists (fs w) (path_join (target_dir cls) [name a]) \<and>
    fs w (dirname (path_join (target_dir cls) [name a])) = Some Dir \<and>
    url (generate_url env a) = Some u \<and> net w u = (200, chunks)"
  then have "write_file (fs w) (path_join (target_dir cls) [name a]) (concat chunks) =
      Inr ((fs w)(path_join (target_dir cls) [name a] \<mapsto> File (concat chunks)))"
    by (simp add: write_file_def Let_def path_exists_def)
  with h show "fetch cls env a w =
          (Inr (generate_url env a),
           w\<lparr>fs := (fs w)(path_join (target_dir cls) [name a] \<mapsto> File (concat chunks)),
             trace := trace w @ [NetGet u (ssl_verify cls),
                                 FileWrite (path_join (target_dir cls) [name a])]\<rparr>)"
    by (simp add: fetch_def Let_def name_generate_url)
next
  assume h: "check_integrity cls \<and> fst (verify hl cls a w) = Inr True"
  then have "fst (check_sums hl a (sums a) w) = Inr ()"
    by (cases "fst (check_sums hl a (sums a) w)") (auto simp: verify_fst)
  from check_sums_ok_trace[OF this] h
  show "trace (snd (verify hl cls a w)) =
          trace w @ map (\<lambda>p. HashFile (fst p) (filename a)) (sums a)"
    by (simp add: verify_snd)
next
  assume h: "check_integrity cls \<and> (\<exists>p \<in> set (sums a). \<not> digest_matches hl (fs w) a p)"
  then have "fst (check_sums hl a (sums a) w) \<noteq> Inr ()"
    by (simp add: check_sums_ok_iff)
  then obtain e where "fst (check_sums hl a (sums a) w) = Inl e"
    by (cases "fst (check_sums hl a (sums a) w)") auto
  with h show "\<exists>e. fst (verify hl cls a w) = Inl e" by (simp add: verify_fst)
qed

theorem fetch_downloads_without_verifying_witness:
  "fetch example_class Map.empty example_artifact target_world =
     (Inr (generate_url Map.empty example_artifact),
      target_world\<lparr>fs := [''target'' \<mapsto> Dir, ''target/a.jar'' \<mapsto> File ''ab''],
                   trace := [NetGet ''http://host/a.jar'' True, FileWrite ''target/a.jar'']\<rparr>) \<and>
   fst (verify stub_hashlib example_class matching_artifact downloaded_world) = Inr True \<and>
   trace (snd (verify stub_hashlib example_class matching_artifact downloaded_world)) =
     [HashFile ''sha1'' ''target/a.jar'', HashFile ''md5'' ''target/a.jar''] \<and>
   \<not> digest_matches stub_hashlib (fs downloaded_world) example_artifact (''md5'', ''cd'') \<and>
   isl (fst (verify stub_hashlib example_class example_artifact downloaded_world))"
proof -
  note t = fetch_downloads_without_verifying[of target_world example_class example_artifact
      Map.empty "''http://host/a.jar''" "[''a'', ''b'']" stub_hashlib]
  have dn: "dirname ''target/a.jar'' = ''target''"
    by (simp add: dirname_def)
  have h1: "\<not> path_exists (fs target_world)
              (path_join (target_dir example_class) [name example_artifact]) \<and>
            fs target_world (dirname (path_join (target_dir example_class)
              [name example_artifact])) = Some Dir \<and>
            url (generate_url Map.empty example_artifact) = Some ''http://host/a.jar'' \<and>
            net target_world ''http://host/a.jar'' = (200, [''a'', ''b''])"
    by (simp add: generate_url_def getenv_def ex_defs dn)
  from t h1 have a: "fetch example_class Map.empty example_artifact target_world =
     (Inr (generate_url Map.empty example_artifact),
      target_world\<lparr>fs := (fs target_world)(path_join (target_dir example_class)
                         [name example_artifact] \<mapsto> File (concat [''a'', ''b''])),
                  trace := trace target_world @ [NetGet ''http://host/a.jar''
                     (ssl_verify example_class),
                     FileWrite (path_join (target_dir example_class)
                         [name example_artifact])]\<rparr>)"
    by blast
  have a': "fetch example_class Map.empty example_artifact target_world =
     (Inr (generate_url Map.empty example_artifact),
      target_world\<lparr>fs := [''target'' \<mapsto> Dir, ''target/a.jar'' \<mapsto> File ''ab''],
                   trace := [NetGet ''http://host/a.jar'' True, FileWrite ''target/a.jar'']\<rparr>)"
    unfolding a by (simp add: ex_defs)
  note t2 = fetch_downloads_without_verifying[of downloaded_world example_class
      matching_artifact Map.empty "''http://host/a.jar''" "[''a'', ''b'']" stub_hashlib]
  have h2: "check_integrity example_class \<and>
            fst (verify stub_hashlib example_class matching_artifact downloaded_world) = Inr True"
    by (simp add: verify_def check_sum_def read_file_def Let_def ex_defs lower_examples)
  from t2 h2 have b: "trace (snd (verify stub_hashlib example_class matching_artifact
        downloaded_world)) =
      trace downloaded_world @ map (\<lambda>p. HashFile (fst p) (filename matching_artifact))
        (sums matching_artifact)"
    by blast
  have b': "trace (snd (verify stub_hashlib example_class matching_artifact downloaded_world)) =
     [HashFile ''sha1'' ''target/a.jar'', HashFile ''md5'' ''target/a.jar'']"
    unfolding b by (simp add: ex_defs)
  note t3 = fetch_downloads_without_verifying[of downloaded_world example_class
      example_artifact Map.empty "''http://host/a.jar''" "[''a'', ''b'']" stub_hashlib]
  have m: "\<not> digest_matches stub_hashlib (fs downloaded_world) example_artifact
      (''md5'', ''cd'')"
    by (simp add: digest_matches_def ex_defs lower_examples)
  have h3: "check_integrity example_class \<and>
     (\<exists>p \<in> set (sums example_artifact).
        \<not> digest_matches stub_hashlib (fs downloaded_world) example_artifact p)"
    using m by (simp add: example_class_def example_artifact_def)
  from t3 h3 have "\<exists>e. fst (verify stub_hashlib example_class example_artifact
      downloaded_world) = Inl e" by blast
  then have c: "isl (fst (verify stub_hashlib example_class example_artifact downloaded_world))"
    by auto
  from a' h2 b' m c show ?thesis by blast
qed

text \<open>
  Claim C1 as stated does not hold. The target directory exists and \<^verbatim>\<open>a.jar\<close> is absent:
  \<^verbatim>\<open>fetch\<close> downloads the file and returns the artifact although the declared md5 does
  not match the content; the trace shows the request and the write and no hashing of
  the file.
\<close>

theorem fetch_ignores_checksums_counterexample:
  "fs target_world ''target'' = Some Dir \<and>
   fetch example_class Map.empty example_artifact target_world =
     (Inr (example_artifact\<lparr>url := Some ''http://host/a.jar''\<rparr>),
      \<lparr>fs = [''target'' \<mapsto> Dir, ''target/a.jar'' \<mapsto> File ''ab''], net = example_net,
       trace = [NetGet ''http://host/a.jar'' True, FileWrite ''target/a.jar'']\<rparr>) \<and>
   (''md5'', ''cd'') \<in> set (sums example_artifact) \<and>
   \<not> digest_matches stub_hashlib [''target'' \<mapsto> Dir, ''target/a.jar'' \<mapsto> File ''ab'']
       example_artifact (''md5'', ''cd'')"
  by (simp add: fetch_def write_file_def dirname_def generate_url_def getenv_def Let_def
                digest_matches_def ex_defs lower_examples)

text \<open>
  Claim C2. When the destination \<^verbatim>\<open>os.path.join(target_dir, name)\<close> already exists,
  \<^verbatim>\<open>fetch\<close> returns the artifact (with the URL that \<^verbatim>\<open>_generate_url\<close> assigned) and
  leaves the world as it was: the file system is unchanged and the trace gains no
  request, no write and no hashing event.
\<close>

theorem fetch_existing_is_noop:
  assumes "path_exists (fs w) (path_join (target_dir cls) [name a])"
  shows "fetch cls env a w = (Inr (generate_url env a), w)"
  using assms by (simp add: fetch_def Let_def name_generate_url)

theorem fetch_existing_is_noop_witness:
  "path_exists (fs fetched_world) (path_join (target_dir example_class) [name example_artifact]) \<and>
   fetch example_class cache_env example_artifact fetched_world =
     (Inr (generate_url cache_env example_artifact), fetched_world)"
proof -
  have h: "path_exists (fs fetched_world)
             (path_join (target_dir example_class) [name example_artifact])"
    by (simp add: path_exists_def fetched_world_def example_class_def example_artifact_def
                  path_join_def join2_def)
  from fetch_existing_is_noop[OF h] h show ?thesis by simp
qed

text \<open>
  Claim C3, as amended. With integrity checking enabled, \<^verbatim>\<open>verify\<close> returns \<^verbatim>\<open>True\<close>
  exactly when every declared (algorithm, expected digest) pair matches the digest of the
  file under comparison in lower case; when the file can be read and every declared
  algorithm exists, a pair that differs raises a \<^verbatim>\<open>DogenError\<close>. With integrity
  checking disabled, \<^verbatim>\<open>verify\<close> returns \<^verbatim>\<open>True\<close> without reading anything.
\<close>

theorem verify_succeeds_iff:
  "(check_integrity cls \<longrightarrow>
      (fst (verify hl cls a w) = Inr True) =
      (\<forall>p \<in> set (sums a). digest_matches hl (fs w) a p)) \<and>
   (check_integrity cls \<and> read_file (fs w) (filename a) = Inr content \<and>
    (\<forall>p \<in> set (sums a). hl (fst p) \<noteq> None) \<and>
    (\<exists>p \<in> set (sums a). \<not> digest_matches hl (fs w) a p)
    \<longrightarrow> (\<exists>m. fst (verify hl cls a w) = Inl (DogenError m))) \<and>
   (\<not> check_integrity cls \<longrightarrow> verify hl cls a w = (Inr True, w))"
proof (intro conjI impI)
  assume c: "check_integrity cls"
  show "(fst (verify hl cls a w) = Inr True) =
        (\<forall>p \<in> set (sums a). digest_matches hl (fs w) a p)"
    unfolding verify_fst[OF c] check_sums_ok_iff[symmetric]
    by (cases "fst (check_sums hl a (sums a) w)") simp_all
next
  assume h: "check_integrity cls \<and> read_file (fs w) (filename a) = Inr content \<and>
    (\<forall>p \<in> set (sums a). hl (fst p) \<noteq> None) \<and>
    (\<exists>p \<in> set (sums a). \<not> digest_matches hl (fs w) a p)"
  then have "fst (check_sums hl a (sums a) w) \<noteq> Inr ()"
    by (simp add: check_sums_ok_iff)
  with h have "\<exists>m. fst (check_sums hl a (sums a) w) = Inl (DogenError m)"
    by (intro check_sums_error_kind) auto
  with h show "\<exists>m. fst (verify hl cls a w) = Inl (DogenError m)"
    by (auto simp: verify_fst)
next
  assume "\<not> check_integrity cls"
  then show "verify hl cls a w = (Inr True, w)" by (simp add: verify_def)
qed

theorem verify_succeeds_iff_witness:
  "fst (verify stub_hashlib example_class matching_artifact fetched_world) = Inr True \<and>
   digest_matches stub_hashlib (fs fetched_world) matching_artifact (''sha1'', ''AB'') \<and>
   digest_matches stub_hashlib (fs fetched_world) matching_artifact (''md5'', ''ab'') \<and>
   fst (verify stub_hashlib example_class example_artifact fetched_world) =
     Inl (DogenError (mismatch_message ''md5'' ''a.jar'' ''ab'' ''cd'')) \<and>
   verify stub_hashlib unchecked_class example_artifact fetched_world =
     (Inr True, fetched_world)"
proof -
  note t = verify_succeeds_iff[of example_class stub_hashlib matching_artifact fetched_world
      "''ab''"]
  have c: "check_integrity example_class" by (simp add: ex_defs)
  have all: "\<forall>p \<in> set (sums matching_artifact).
      digest_matches stub_hashlib (fs fetched_world) matching_artifact p"
    by (simp add: digest_matches_def ex_defs lower_examples)
  from t c all have a: "fst (verify stub_hashlib example_class matching_artifact
      fetched_world) = Inr True" by blast
  note t2 = verify_succeeds_iff[of example_class stub_hashlib example_artifact fetched_world
      "''ab''"]
  have h: "check_integrity example_class \<and>
     read_file (fs fetched_world) (filename example_artifact) = Inr ''ab'' \<and>
     (\<forall>p \<in> set (sums example_artifact). stub_hashlib (fst p) \<noteq> None) \<and>
     (\<exists>p \<in> set (sums example_artifact).
        \<not> digest_matches stub_hashlib (fs fetched_world) example_artifact p)"
    by (simp add: digest_matches_def read_file_def ex_defs lower_examples)
  from t2 h have "\<exists>m. fst (verify stub_hashlib example_class example_artifact
      fetched_world) = Inl (DogenError m)" by blast
  moreover have "fst (verify stub_hashlib example_class example_artifact fetched_world) =
     Inl (DogenError (mismatch_message ''md5'' ''a.jar'' ''ab'' ''cd''))"
    by (simp add: verify_def check_sum_def read_file_def Let_def ex_defs lower_examples)
  ultimately have b: "fst (verify stub_hashlib example_class example_artifact fetched_world) =
     Inl (DogenError (mismatch_message ''md5'' ''a.jar'' ''ab'' ''cd''))" by simp
  note t3 = verify_succeeds_iff[of unchecked_class stub_hashlib example_artifact
      fetched_world "''ab''"]
  have n: "\<not> check_integrity unchecked_class" by (simp add: ex_defs)
  from t3 n have d: "verify stub_hashlib unchecked_class example_artifact fetched_world =
     (Inr True, fetched_world)" by blast
  have m: "digest_matches stub_hashlib (fs fetched_world) matching_artifact (''sha1'', ''AB'')"
    "digest_matches stub_hashlib (fs fetched_world) matching_artifact (''md5'', ''ab'')"
    using all by (simp_all add: matching_artifact_def)
  from a m b d show ?thesis by blast
qed

text \<open>
  Claim C3 as stated does not hold when integrity checking is switched off: \<^verbatim>\<open>verify\<close>
  succeeds although the declared md5 differs from the digest of the file.
\<close>

theorem verify_unchecked_counterexample:
  "fst (verify stub_hashlib unchecked_class example_artifact fetched_world) = Inr True \<and>
   (''md5'', ''cd'') \<in> set (sums example_artifact) \<and>
   \<not> digest_matches stub_hashlib (fs fetched_world) example_artifact (''md5'', ''cd'')"
  by (simp add: verify_def digest_matches_def ex_defs lower_examples)

text \<open>
  Claim C4. With a non-empty cache pattern in \<^verbatim>\<open>DOGEN_ARTIFACT_CACHE\<close> and \<open>alg\<close> the
  first of sha256, sha1, md5 that the artifact declares, the URL is the pattern in which
  \<^verbatim>\<open>#filename#\<close> is replaced by the artifact name, then \<^verbatim>\<open>#algorithm#\<close> by \<open>alg\<close>, then
  \<^verbatim>\<open>#hash#\<close> by the digest declared for \<open>alg\<close>. Without a pattern (unset or empty) the
  URL is the declared source.
\<close>

theorem generate_url_resolution:
  "(env ''DOGEN_ARTIFACT_CACHE'' = Some cache \<and> cache \<noteq> [] \<and>
    alg \<in> set SUPPORTED_HASH_ALGORITHMS \<and> map_of (sums a) alg = Some h \<and>
    (\<forall>alg' \<in> set (takeWhile (\<lambda>x. x \<noteq> alg) SUPPORTED_HASH_ALGORITHMS).
        map_of (sums a) alg' = None)
    \<longrightarrow> url (generate_url env a) =
          Some (py_replace ''#hash#'' h
                 (py_replace ''#algorithm#'' alg
                   (py_replace ''#filename#'' (name a) cache)))) \<and>
   (env ''DOGEN_ARTIFACT_CACHE'' = None \<or> env ''DOGEN_ARTIFACT_CACHE'' = Some []
    \<longrightarrow> url (generate_url env a) = Some (artifact a))"
proof (intro conjI impI)
  assume h: "env ''DOGEN_ARTIFACT_CACHE'' = Some cache \<and> cache \<noteq> [] \<and>
    alg \<in> set SUPPORTED_HASH_ALGORITHMS \<and> map_of (sums a) alg = Some h \<and>
    (\<forall>alg' \<in> set (takeWhile (\<lambda>x. x \<noteq> alg) SUPPORTED_HASH_ALGORITHMS).
        map_of (sums a) alg' = None)"
  then have "generate_url env a = cache_url cache a SUPPORTED_HASH_ALGORITHMS"
    by (simp add: generate_url_def getenv_def)
  also from h have "\<dots> = a\<lparr>url := Some (py_replace ''#hash#'' h
                          (py_replace ''#algorithm#'' alg
                            (py_replace ''#filename#'' (name a) cache)))\<rparr>"
    by (intro cache_url_first) auto
  finally show "url (generate_url env a) =
          Some (py_replace ''#hash#'' h
                 (py_replace ''#algorithm#'' alg
                   (py_replace ''#filename#'' (name a) cache)))" by simp
next
  assume "env ''DOGEN_ARTIFACT_CACHE'' = None \<or> env ''DOGEN_ARTIFACT_CACHE'' = Some []"
  then show "url (generate_url env a) = Some (artifact a)"
    by (auto simp: generate_url_def getenv_def)
qed

lemma example_cache_url:
  "py_replace ''#hash#'' ''AB''
     (py_replace ''#algorithm#'' ''sha1''
       (py_replace ''#filename#'' ''a.jar'' ''http://c/#algorithm#/#hash#/#filename#'')) =
   ''http://c/sha1/AB/a.jar''"
  by code_simp

theorem generate_url_resolution_witness:
  "url (generate_url cache_env example_artifact) = Some ''http://c/sha1/AB/a.jar'' \<and>
   url (generate_url Map.empty example_artifact) = Some ''http://host/a.jar''"
proof -
  have a: "url (generate_url cache_env example_artifact) = Some ''http://c/sha1/AB/a.jar''"
    using generate_url_resolution[of cache_env "''http://c/#algorithm#/#hash#/#filename#''"
        "''sha1''" example_artifact "''AB''"]
    by (simp add: cache_env_def example_artifact_def SUPPORTED_HASH_ALGORITHMS_def
                  example_cache_url)
  have b: "url (generate_url Map.empty example_artifact) = Some ''http://host/a.jar''"
    using generate_url_resolution[of Map.empty "[]" "''sha1''" example_artifact "''AB''"]
    by (simp add: example_artifact_def)
  from a b show ?thesis by simp
qed

text \<open>
  Claim C7. When the destination is absent and the request to the assigned URL \<open>u\<close>
  answers with a status other than 200, \<^verbatim>\<open>fetch\<close> raises the \<^verbatim>\<open>DogenError\<close> whose
  message ends with \<open>u\<close>; the request is the only effect and the file system is as before.
\<close>

theorem fetch_bad_status:
  assumes "\<not> path_exists (fs w) (path_join (target_dir cls) [name a])"
    and "url (generate_url env a) = Some u"
    and "fst (net w u) \<noteq> 200"
  shows "fetch cls env a w =
           (Inl (DogenError (''Could not download file from '' @ u)),
            w\<lparr>trace := trace w @ [NetGet u (ssl_verify cls)]\<rparr>) \<and>
         fs (snd (fetch cls env a w)) = fs w"
  using assms by (simp add: fetch_def Let_def name_generate_url)

theorem fetch_bad_status_witness:
  "\<not> path_exists (fs empty_world) (path_join (target_dir example_class) [name plain_artifact]) \<and>
   url (generate_url Map.empty plain_artifact) = Some ''http://host/b.jar'' \<and>
   fst (net empty_world ''http://host/b.jar'') \<noteq> 200 \<and>
   fetch example_class Map.empty plain_artifact empty_world =
     (Inl (DogenError ''Could not download file from http://host/b.jar''),
      empty_world\<lparr>trace := [NetGet ''http://host/b.jar'' True]\<rparr>) \<and>
   fs (snd (fetch example_class Map.empty plain_artifact empty_world)) = fs empty_world"
proof -
  have h1: "\<not> path_exists (fs empty_world)
              (path_join (target_dir example_class) [name plain_artifact])"
    by (simp add: ex_defs)
  have h2: "url (generate_url Map.empty plain_artifact) = Some ''http://host/b.jar''"
    by (simp add: generate_url_def getenv_def ex_defs)
  have h3: "fst (net empty_world ''http://host/b.jar'') \<noteq> 200"
    by (simp add: ex_defs)
  from fetch_bad_status[OF h1 h2 h3] h1 h2 h3 show ?thesis
    by (simp add: ex_defs)
qed

text \<open>
  Claim C9. For an artifact constructed from an entry without any supported checksum,
  under a non-empty cache pattern, \<^verbatim>\<open>_generate_url\<close> changes nothing, so no URL is
  assigned, and \<^verbatim>\<open>fetch\<close> of an absent destination raises \<^verbatim>\<open>AttributeError\<close> with the
  world untouched (no request was made).
\<close>

theorem no_url_without_checksum:
  assumes "Artifact_init cls0 d = Inr a"
    and "\<forall>alg \<in> set SUPPORTED_HASH_ALGORITHMS. d alg = None"
    and "env ''DOGEN_ARTIFACT_CACHE'' = Some cache" and "cache \<noteq> []"
    and "\<not> path_exists (fs w) (path_join (target_dir cls) [name a])"
  shows "generate_url env a = a \<and> url (generate_url env a) = None \<and>
         fetch cls env a w = (Inl (AttributeError ''url''), w)"
proof -
  from assms(1) have s: "sums a = collect_sums d SUPPORTED_HASH_ALGORITHMS []"
    and u: "url a = None"
    by (auto simp: Artifact_init_def split: option.splits)
  have "sums a = []" unfolding s using assms(2)
    by (simp add: SUPPORTED_HASH_ALGORITHMS_def)
  then have g: "generate_url env a = a"
    using assms(3,4) by (simp add: generate_url_def getenv_def cache_url_none)
  with u assms(5) show ?thesis by (simp add: fetch_def Let_def)
qed

theorem no_url_without_checksum_witness:
  "Artifact_init example_class plain_dict = Inr plain_artifact \<and>
   generate_url cache_env plain_artifact = plain_artifact \<and>
   url (generate_url cache_env plain_artifact) = None \<and>
   fetch example_class cache_env plain_artifact empty_world =
     (Inl (AttributeError ''url''), empty_world)"
proof -
  have h1: "Artifact_init example_class plain_dict = Inr plain_artifact"
    by (simp add: Artifact_init_def ex_defs)
  have h2: "\<forall>alg \<in> set SUPPORTED_HASH_ALGORITHMS. plain_dict alg = None"
    by (simp add: ex_defs)
  have h3: "cache_env ''DOGEN_ARTIFACT_CACHE'' = Some ''http://c/#algorithm#/#hash#/#filename#''"
    by (simp add: ex_defs)
  have h4: "''http://c/#algorithm#/#hash#/#filename#'' \<noteq> []" by simp
  have h5: "\<not> path_exists (fs empty_world)
              (path_join (target_dir example_class) [name plain_artifact])"
    by (simp add: ex_defs)
  from no_url_without_checksum[of example_class plain_dict plain_artifact cache_env
      "''http://c/#algorithm#/#hash#/#filename#''" empty_world example_class,
      OF h1 h2 h3 h4 h5] h1
  show ?thesis by blast
qed

text \<open>
  Claim C10. The checksums of a constructed artifact are exactly the entries of the
  descriptor for sha256, sha1 and md5. A key for any other algorithm is dropped: adding it
  to the entry constructs the same artifact, and no \<^verbatim>\<open>verify\<close> call on the artifact ever
  hashes the file with that algorithm.
\<close>

theorem init_records_only_supported:
  assumes "Artifact_init cls d = Inr a"
  shows "(\<forall>alg. map_of (sums a) alg =
            (if alg \<in> set SUPPORTED_HASH_ALGORITHMS then d alg else None)) \<and>
         (\<forall>k v. k \<notin> set SUPPORTED_HASH_ALGORITHMS \<and> k \<noteq> ''artifact'' \<and> k \<noteq> ''name'' \<longrightarrow>
            Artifact_init cls (d(k \<mapsto> v)) = Inr a) \<and>
         (\<forall>k f hl cls' w. k \<notin> set SUPPORTED_HASH_ALGORITHMS \<longrightarrow>
            HashFile k f \<in> set (trace (snd (verify hl cls' a w))) \<longrightarrow>
            HashFile k f \<in> set (trace w))"
proof -
  from assms have s: "sums a = collect_sums d SUPPORTED_HASH_ALGORITHMS []"
    by (auto simp: Artifact_init_def split: option.splits)
  have m: "\<And>alg. map_of (sums a) alg =
            (if alg \<in> set SUPPORTED_HASH_ALGORITHMS then d alg else None)"
    unfolding s by (simp add: map_of_collect_sums split: option.splits)
  have keys: "fst ` set (sums a) \<subseteq> set SUPPORTED_HASH_ALGORITHMS"
  proof
    fix k assume "k \<in> fst ` set (sums a)"
    then have "map_of (sums a) k \<noteq> None" by (simp add: map_of_eq_None_iff)
    with m[of k] show "k \<in> set SUPPORTED_HASH_ALGORITHMS" by (auto split: if_splits)
  qed
  have v: "HashFile k f \<in> set (trace w)"
    if "k \<notin> set SUPPORTED_HASH_ALGORITHMS"
       "HashFile k f \<in> set (trace (snd (verify hl cls' a w)))" for k f hl cls' w
  proof -
    from verify_trace[of hl cls' a w] obtain evs where
      e: "trace (snd (verify hl cls' a w)) = trace w @ evs"
         "set evs \<subseteq> (\<lambda>alg. HashFile alg (filename a)) ` fst ` set (sums a)" by auto
    have "HashFile k f \<notin> set evs"
    proof
      assume "HashFile k f \<in> set evs"
      with e(2) have "HashFile k f \<in> (\<lambda>alg. HashFile alg (filename a)) ` fst ` set (sums a)"
        by blast
      then have "k \<in> fst ` set (sums a)" by blast
      with keys that(1) show False by blast
    qed
    with that(2) e(1) show ?thesis by auto
  qed
  have i: "Artifact_init cls (d(k \<mapsto> v)) = Inr a"
    if "k \<notin> set SUPPORTED_HASH_ALGORITHMS \<and> k \<noteq> ''artifact'' \<and> k \<noteq> ''name''" for k v
    using that assms by (simp add: init_ignores_key)
  from m i v show ?thesis by blast
qed

theorem init_records_only_supported_witness:
  "Artifact_init example_class example_dict = Inr example_artifact \<and>
   map_of (sums example_artifact) ''md5'' = Some ''cd'' \<and>
   map_of (sums example_artifact) ''sha512'' = None \<and>
   Artifact_init example_class (example_dict(''sha384'' \<mapsto> ''ff'')) = Inr example_artifact \<and>
   HashFile ''sha512'' ''target/a.jar'' \<notin>
     set (trace (snd (verify stub_hashlib example_class example_artifact fetched_world)))"
proof -
  have h: "Artifact_init example_class example_dict = Inr example_artifact"
    by (simp add: Artifact_init_def ex_defs)
  note t = init_records_only_supported[OF h]
  from t have a: "map_of (sums example_artifact) ''md5'' =
      (if ''md5'' \<in> set SUPPORTED_HASH_ALGORITHMS then example_dict ''md5'' else None)"
    and b: "map_of (sums example_artifact) ''sha512'' =
      (if ''sha512'' \<in> set SUPPORTED_HASH_ALGORITHMS then example_dict ''sha512'' else None)"
    by blast+
  from t have c: "''sha384'' \<notin> set SUPPORTED_HASH_ALGORITHMS \<and> ''sha384'' \<noteq> ''artifact'' \<and>
      ''sha384'' \<noteq> ''name'' \<longrightarrow>
      Artifact_init example_class (example_dict(''sha384'' \<mapsto> ''ff'')) = Inr example_artifact"
    by blast
  from t have d: "''sha512'' \<notin> set SUPPORTED_HASH_ALGORITHMS \<longrightarrow>
      HashFile ''sha512'' ''target/a.jar'' \<in>
        set (trace (snd (verify stub_hashlib example_class example_artifact fetched_world))) \<longrightarrow>
      HashFile ''sha512'' ''target/a.jar'' \<in> set (trace fetched_world)"
    by blast
  have e: "trace fetched_world = []" by (simp add: ex_defs)
  have s: "''sha512'' \<notin> set SUPPORTED_HASH_ALGORITHMS"
    "''sha384'' \<notin> set SUPPORTED_HASH_ALGORITHMS" "''md5'' \<in> set SUPPORTED_HASH_ALGORITHMS"
    by (simp_all add: SUPPORTED_HASH_ALGORITHMS_def)
  from a s have a': "map_of (sums example_artifact) ''md5'' = Some ''cd''"
    by (simp add: example_dict_def)
  from b s have b': "map_of (sums example_artifact) ''sha512'' = None" by simp
  from c s have c': "Artifact_init example_class (example_dict(''sha384'' \<mapsto> ''ff'')) =
      Inr example_artifact" by simp
  from d s e have d': "HashFile ''sha512'' ''target/a.jar'' \<notin>
     set (trace (snd (verify stub_hashlib example_class example_artifact fetched_world)))"
    by auto
  from h a' b' c' d' show ?thesis by simp
qed

section \<open>Cleaning\<close>

text \<open>
  Claim C8. \<^verbatim>\<open>cleanup\<close> never changes a path outside the trees rooted at
  \<^verbatim>\<open>target/image/modules\<close>, \<^verbatim>\<open>target/image/repos\<close> and \<^verbatim>\<open>target/repo\<close>. When each
  of the three that exists is a directory, it succeeds and the resulting file system is
  the old one without the trees of those that existed.
\<close>

theorem cleanup_removes_exactly:
  "(\<forall>p. (\<forall>d \<in> set (dirs_to_clean target). \<not> in_tree d p) \<longrightarrow>
        snd (cleanup target fsys) p = fsys p) \<and>
   ((\<forall>d \<in> set (dirs_to_clean target). fsys d = None \<or> fsys d = Some Dir) \<longrightarrow>
      cleanup target fsys =
        (Inr (), \<lambda>p. if \<exists>d \<in> set (dirs_to_clean target). path_exists fsys d \<and> in_tree d p
                     then None else fsys p)) \<and>
   dirs_to_clean target =
     [join2 target [] @ ''image/modules'', join2 target [] @ ''image/repos'',
      join2 target [] @ ''repo'']"
proof (intro conjI allI impI)
  fix p assume "\<forall>d \<in> set (dirs_to_clean target). \<not> in_tree d p"
  then show "snd (cleanup target fsys) p = fsys p"
    unfolding cleanup_def by (intro clean_dirs_frame) simp
next
  assume "\<forall>d \<in> set (dirs_to_clean target). fsys d = None \<or> fsys d = Some Dir"
  then show "cleanup target fsys =
        (Inr (), \<lambda>p. if \<exists>d \<in> set (dirs_to_clean target). path_exists fsys d \<and> in_tree d p
                     then None else fsys p)"
    unfolding cleanup_def using dirs_to_clean_separate[of target]
    by (intro clean_dirs_removes) simp_all
next
  show "dirs_to_clean target =
     [join2 target [] @ ''image/modules'', join2 target [] @ ''image/repos'',
      join2 target [] @ ''repo'']" by (rule dirs_to_clean_eq)
qed

theorem cleanup_removes_exactly_witness:
  "dirs_to_clean ''out'' = [''out/image/modules'', ''out/image/repos'', ''out/repo''] \<and>
   example_tree ''out/image/modules'' = Some Dir \<and>
   example_tree ''out/image/repos'' = None \<and>
   example_tree ''out/repo'' = Some Dir \<and>
   fst (cleanup ''out'' example_tree) = Inr () \<and>
   snd (cleanup ''out'' example_tree) ''out/Dockerfile'' = Some (File ''FROM scratch'') \<and>
   snd (cleanup ''out'' example_tree) ''out/image'' = Some Dir \<and>
   snd (cleanup ''out'' example_tree) ''out/image/modulesX'' = Some (File ''x'') \<and>
   snd (cleanup ''out'' example_tree) ''out/image/modules'' = None \<and>
   snd (cleanup ''out'' example_tree) ''out/image/modules/m.yaml'' = None \<and>
   snd (cleanup ''out'' example_tree) ''out/repo'' = None \<and>
   snd (cleanup ''out'' example_tree) ''out/repo/r'' = None"
proof -
  note t = cleanup_removes_exactly[of "''out''" example_tree]
  have ds: "dirs_to_clean ''out'' = [''out/image/modules'', ''out/image/repos'', ''out/repo'']"
    by (simp add: tree_defs)
  have h: "\<forall>d \<in> set (dirs_to_clean ''out''). example_tree d = None \<or> example_tree d = Some Dir"
    unfolding ds by (simp add: example_tree_def)
  from t h have c: "cleanup ''out'' example_tree =
        (Inr (), \<lambda>p. if \<exists>d \<in> set (dirs_to_clean ''out''). path_exists example_tree d \<and> in_tree d p
                     then None else example_tree p)"
    by blast
  have f1: "\<forall>d \<in> set (dirs_to_clean ''out''). \<not> in_tree d ''out/Dockerfile''"
    and f2: "\<forall>d \<in> set (dirs_to_clean ''out''). \<not> in_tree d ''out/image''"
    and f3: "\<forall>d \<in> set (dirs_to_clean ''out''). \<not> in_tree d ''out/image/modulesX''"
    unfolding ds by (simp_all add: in_tree_def)
  from t f1 have k1: "snd (cleanup ''out'' example_tree) ''out/Dockerfile'' =
      example_tree ''out/Dockerfile''" by blast
  from t f2 have k2: "snd (cleanup ''out'' example_tree) ''out/image'' =
      example_tree ''out/image''" by blast
  from t f3 have k3: "snd (cleanup ''out'' example_tree) ''out/image/modulesX'' =
      example_tree ''out/image/modulesX''" by blast
  have r: "snd (cleanup ''out'' example_tree) ''out/image/modules'' = None"
     "snd (cleanup ''out'' example_tree) ''out/image/modules/m.yaml'' = None"
     "snd (cleanup ''out'' example_tree) ''out/repo'' = None"
     "snd (cleanup ''out'' example_tree) ''out/repo/r'' = None"
    unfolding c ds by (simp_all add: in_tree_def path_exists_def example_tree_def)
  from c have s: "fst (cleanup ''out'' example_tree) = Inr ()" by simp
  from k1 k2 k3 have k: "snd (cleanup ''out'' example_tree) ''out/Dockerfile'' =
        Some (File ''FROM scratch'')"
     "snd (cleanup ''out'' example_tree) ''out/image'' = Some Dir"
     "snd (cleanup ''out'' example_tree) ''out/image/modulesX'' = Some (File ''x'')"
    by (simp_all add: example_tree_def)
  have e: "example_tree ''out/image/modules'' = Some Dir"
    "example_tree ''out/image/repos'' = None" "example_tree ''out/repo'' = Some Dir"
    by (simp_all add: example_tree_def)
  from ds e s k r show ?thesis by blast
qed

section \<open>Descriptors\<close>

text \<open>
  The error sites of \<^verbatim>\<open>load_descriptor\<close>. It raises a \<^verbatim>\<open>DogenError\<close> when the schema
  file does not exist; with the schema read and parsed, it raises a \<^verbatim>\<open>DogenError\<close>
  when the descriptor file does not exist; and with the validator constructed, any
  exception of \<^verbatim>\<open>validate\<close> is wrapped into one \<^verbatim>\<open>DogenError\<close> that carries it.
\<close>

lemma load_descriptor_error_sites:
  "(\<not> path_exists fsys (schema_path_of pkg_dir schema_type) \<longrightarrow>
      load_descriptor yaml_safe_load core_new core_validate pkg_dir fsys descriptor_path
          schema_type =
        Inl (DogenError (''Cannot locate schema for '' @ schema_type @ ''.''))) \<and>
   (read_file fsys (schema_path_of pkg_dir schema_type) = Inr schema_text \<and>
    yaml_safe_load schema_text = Inr schema \<longrightarrow>
      (\<not> path_exists fsys descriptor_path \<longrightarrow>
         load_descriptor yaml_safe_load core_new core_validate pkg_dir fsys descriptor_path
             schema_type =
           Inl (DogenError ''Cannot find provided descriptor file'')) \<and>
      (read_file fsys descriptor_path = Inr descriptor_text \<and>
       yaml_safe_load descriptor_text = Inr descriptor \<and>
       core_new descriptor schema = Inr core \<and> core_validate core = Inl ex \<longrightarrow>
         load_descriptor yaml_safe_load core_new core_validate pkg_dir fsys descriptor_path
             schema_type =
           Inl (DogenErrorCause ''Cannot validate schema'' ex)))"
proof -
  have ex: "path_exists fsys p" if "read_file fsys p = Inr t" for p t
    using that by (auto simp: read_file_def path_exists_def split: option.splits node.splits)
  show ?thesis
    by (auto simp: load_descriptor_def Let_def dest: ex)
qed

text \<open>
  Claim C6 says that raw validator errors never reach the caller of \<^verbatim>\<open>load_descriptor\<close>.
  The code at an empty descriptor file, with the schema in place: the document parses to
  \<^verbatim>\<open>None\<close>, the constructor of the validator raises, and since the constructor is called
  before the \<^verbatim>\<open>try\<close> block that wraps the exceptions of \<^verbatim>\<open>validate\<close>, the exception of
  the validator reaches the caller as it is.
\<close>

theorem load_descriptor_empty_descriptor:
  "read_file empty_descriptor (schema_path_of ''pkg'' ''image'') = Inr ''name: str'' \<and>
   read_file empty_descriptor ''image.yaml'' = Inr [] \<and>
   load_descriptor stub_yaml stub_core_new stub_validate ''pkg'' empty_descriptor ''image.yaml''
       ''image'' = Inl (LibraryError ''CoreError'') \<and>
   is_DogenError (LibraryError ''CoreError'') = False"
  by (simp add: load_defs empty_descriptor_def)

section \<open>Substitution\<close>

text \<open>
  Claim C5. For a name \<open>X\<close> without colon or closing brace and a default without closing
  brace: \<^verbatim>\<open>{{X:default}}\<close> resolves to the default when no override for \<open>X\<close> is given;
  with an override both \<^verbatim>\<open>{{X:default}}\<close> and \<^verbatim>\<open>{{X}}\<close> resolve to the override;
  \<^verbatim>\<open>{{X}}\<close> without override fails.
\<close>

theorem resolve_precedence:
  assumes "CHR '':'' \<notin> set X" "CHR ''}'' \<notin> set X" "CHR ''}'' \<notin> set d"
  shows "(ov X = None \<longrightarrow> resolve (placeholder X (Some d)) ov = Inr d) \<and>
         (ov X = Some v \<longrightarrow> resolve (placeholder X (Some d)) ov = Inr v \<and>
                            resolve (placeholder X None) ov = Inr v) \<and>
         (ov X = None \<longrightarrow> resolve (placeholder X None) ov = Inl (SubstitutionError X))"
  unfolding resolve_with_default[OF assms] resolve_without_default[OF assms(1,2)]
  by (simp add: resolve_placeholder_def)

theorem resolve_precedence_witness:
  "resolve ''{{FROM:rhel:7}}'' Map.empty = Inr ''rhel:7'' \<and>
   resolve ''{{FROM:rhel:7}}'' [''FROM'' \<mapsto> ''centos:7''] = Inr ''centos:7'' \<and>
   resolve ''{{FROM}}'' [''FROM'' \<mapsto> ''centos:7''] = Inr ''centos:7'' \<and>
   resolve ''{{FROM}}'' Map.empty = Inl (SubstitutionError ''FROM'')"
proof -
  have h: "CHR '':'' \<notin> set ''FROM''" "CHR ''}'' \<notin> set ''FROM''" "CHR ''}'' \<notin> set ''rhel:7''"
    by simp_all
  have p: "placeholder ''FROM'' (Some ''rhel:7'') = ''{{FROM:rhel:7}}''"
    "placeholder ''FROM'' None = ''{{FROM}}''"
    by (simp_all add: placeholder_def)
  from resolve_precedence[OF h, of Map.empty "''centos:7''"]
       resolve_precedence[OF h, of "[''FROM'' \<mapsto> ''centos:7'']" "''centos:7''"]
  show ?thesis unfolding p by simp
qed

end
